theory Spec2Isabelle
  imports Complex_Main
begin

section \<open>The ensemble restraint of \<^verbatim>\<open>ensemblepotential.cpp\<close>\<close>

text \<open>
  The development embeds the sampling, windowing and force code of
  \<^verbatim>\<open>src/cpp/ensemblepotential.cpp\<close>. Conventions of the embedding:

  \<^item> A C++ \<^verbatim>\<open>double\<close> is a \<^typ>\<open>real\<close>: every statement below is about exact real
    arithmetic, not about IEEE rounding, infinities or NaN. A division by zero gives an
    infinity or a NaN in C++ and 0 in HOL, so the statements describe the program where the
    divisors (the kernel width, the number of bins, the number of samples, the norm of the
    separation) are not zero. For \<^verbatim>\<open>calculate\<close> a second embedding,
    \<open>calculate_checked\<close>, shows the quotients with a zero divisor.
  \<^item> The counters and sizes (\<^verbatim>\<open>size_t\<close>, \<^verbatim>\<open>unsigned int\<close>) are \<^typ>\<open>nat\<close>. Their
    declarations are in \<^verbatim>\<open>ensemblepotential.h\<close>, which is not among the sources; no
    counter can wrap before an out-of-range access has already ended the run, apart from
    \<^verbatim>\<open>currentWindow_\<close>, which is only ever incremented and never read by the code.
  \<^item> An exception or an access outside a container ends the call with an \<open>error\<close>; the
    object is not used afterwards, so a run is a sequence of calls that all returned.
  \<^item> The two mutexes of \<^verbatim>\<open>callback\<close> are not modelled: calls are sequential.
\<close>

subsection \<open>Errors\<close>

text \<open>
  Two things can end a call early. An exception is signalled to the caller. An unchecked
  access outside a vector is undefined behaviour of the C++ program: nothing is signalled,
  and the model stops there because the source defines no result.
\<close>

datatype unchecked_access =
    WritePastSamples      \<comment> \<open>\<^verbatim>\<open>distanceSamples_[currentSample_++] = R\<close> with the cursor past the end\<close>
  | FrontOfEmptyWindows   \<comment> \<open>\<^verbatim>\<open>windows_[0]\<close> and \<^verbatim>\<open>erase(begin())\<close> on an empty vector\<close>

datatype error =
    OutOfRange            \<comment> \<open>\<^verbatim>\<open>std::out_of_range\<close> thrown by \<^verbatim>\<open>vector::at\<close>\<close>
  | ReduceFailure         \<comment> \<open>an exception thrown by the environment's reduction function\<close>
  | Undefined unchecked_access \<comment> \<open>no exception: an unchecked access outside a vector\<close>

subsection \<open>Collaborating types\<close>

text \<open>
  Modelled from the spec: the class template \<^verbatim>\<open>Matrix<double>\<close> is declared in the absent
  header. The spec describes a fixed-shape buffer with a row count, a column count and a flat
  backing sequence of length \<open>rows * cols\<close>, zero-initialised at construction.
\<close>

record Matrix =
  rows :: nat
  cols :: nat
  vector :: "real list"

definition Matrix_new :: "nat \<Rightarrow> nat \<Rightarrow> Matrix" where
  "Matrix_new r c = \<lparr>rows = r, cols = c, vector = replicate (r * c) 0\<rparr>"

text \<open>
  Modelled from the spec: \<^verbatim>\<open>gmx::Vector\<close> and its operators come from the host's headers.
  The spec reads them as 3-vectors with the Euclidean norm.
\<close>

datatype Vector = Vec (vx: real) (vy: real) (vz: real)

definition vminus :: "Vector \<Rightarrow> Vector \<Rightarrow> Vector" where
  "vminus a b = Vec (vx a - vx b) (vy a - vy b) (vz a - vz b)"

definition dot :: "Vector \<Rightarrow> Vector \<Rightarrow> real" where
  "dot a b = vx a * vx b + vy a * vy b + vz a * vz b"

definition vnorm :: "Vector \<Rightarrow> real" where
  "vnorm a = sqrt (dot a a)"

definition vscale :: "real \<Rightarrow> Vector \<Rightarrow> Vector" where
  "vscale c a = Vec (c * vx a) (c * vy a) (c * vz a)"

definition vzero :: Vector where
  "vzero = Vec 0 0 0"

text \<open>
  Modelled from the spec: \<^verbatim>\<open>gmx::PotentialPointData\<close> is the host's result type; a
  default-constructed value carries a zero force and a zero energy.
\<close>

record PotentialPointData =
  force :: Vector
  energy :: real

definition PotentialPointData_new :: PotentialPointData where
  "PotentialPointData_new = \<lparr>force = vzero, energy = 0\<rparr>"

text \<open>
  \<^verbatim>\<open>EnsembleResources\<close> holds the reduction function of the environment;
  \<^verbatim>\<open>getHandle\<close> asserts that it is set and \<^verbatim>\<open>EnsembleResourceHandle::reduce\<close> forwards
  to it. The function reads \<open>send\<close> and overwrites \<open>receive\<close>, or throws.
\<close>

type_synonym EnsembleResources = "Matrix \<Rightarrow> Matrix \<Rightarrow> error + Matrix"

definition reduce :: "EnsembleResources \<Rightarrow> Matrix \<Rightarrow> Matrix \<Rightarrow> error + Matrix" where
  "reduce resources send receive = resources send receive"

subsection \<open>\<^verbatim>\<open>BlurToGrid::operator()\<close>\<close>

text \<open>
  The outer loop runs over the bins of the grid and writes each one; the inner loop
  accumulates \<^verbatim>\<open>bin_value\<close> over the samples. The result is the grid after the call.
\<close>

definition BlurToGrid :: "real \<Rightarrow> real \<Rightarrow> real \<Rightarrow> real list \<Rightarrow> real list \<Rightarrow> real list" where
  "BlurToGrid min_dist max_dist sigma distances grid =
    (let nbins = length grid;
         dx = (max_dist - min_dist) / real nbins;
         num_samples = length distances;
         denominator = 1 / (2 * sigma * sigma);
         normalization = 1 / (real num_samples * sqrt (2 * pi * sigma * sigma))
     in map (\<lambda>i.
          let bin_x = real i * dx
          in foldl (\<lambda>bin_value distance.
               let relative_distance = bin_x - distance;
                   numerator = - relative_distance * relative_distance
               in bin_value + normalization * exp (numerator * denominator))
             0 distances)
        [0..<nbins])"

subsection \<open>\<^verbatim>\<open>EnsembleHarmonic\<close>: the state and its constructor\<close>

text \<open>
  The members of the class, in the order of the constructor's initialiser list. The
  trailing underscore of the C++ names is dropped.
\<close>

record EnsembleHarmonic =
  nBins :: nat
  minDist :: real
  maxDist :: real
  binWidth :: real
  histogram :: "real list"
  experimental :: "real list"
  nSamples :: nat
  currentSample :: nat
  samplePeriod :: real
  nextSampleTime :: real
  distanceSamples :: "real list"
  nWindows :: nat
  currentWindow :: nat
  windowUpdatePeriod :: real
  nextWindowUpdateTime :: real
  windows :: "Matrix list"
  k :: real
  sigma :: real

definition EnsembleHarmonic_new ::
  "nat \<Rightarrow> real \<Rightarrow> real \<Rightarrow> real list \<Rightarrow> nat \<Rightarrow> real \<Rightarrow> nat \<Rightarrow> real \<Rightarrow> real \<Rightarrow> real
     \<Rightarrow> EnsembleHarmonic" where
  "EnsembleHarmonic_new nbins min_dist max_dist experimental' nsamples sample_period
       nwindows window_update_period K sigma' =
     \<lparr>nBins = nbins,
      minDist = min_dist,
      maxDist = max_dist,
      binWidth = (max_dist - min_dist) / real nbins,
      histogram = replicate nbins 0,
      experimental = experimental',
      nSamples = nsamples,
      currentSample = 0,
      samplePeriod = sample_period,
      nextSampleTime = sample_period,
      distanceSamples = replicate nsamples 0,
      nWindows = nwindows,
      currentWindow = 0,
      windowUpdatePeriod = window_update_period,
      nextWindowUpdateTime = window_update_period,
      windows = [],
      k = K,
      sigma = sigma'\<rparr>"

subsection \<open>\<^verbatim>\<open>EnsembleHarmonic::callback\<close>\<close>

text \<open>
  The first block of \<^verbatim>\<open>callback\<close>: when the sample threshold is reached, the separation
  is stored with the unchecked \<^verbatim>\<open>operator[]\<close> at the cursor, the cursor is incremented
  and the threshold advanced. A cursor at or beyond the size of the buffer makes the store an
  access outside the vector.
\<close>

definition store_sample :: "real \<Rightarrow> real \<Rightarrow> EnsembleHarmonic \<Rightarrow> error + EnsembleHarmonic" where
  "store_sample t R st =
     (if t \<ge> nextSampleTime st then
        (if currentSample st < length (distanceSamples st) then
           Inr (st\<lparr>distanceSamples := (distanceSamples st)[currentSample st := R],
                   currentSample := currentSample st + 1,
                   nextSampleTime := nextSampleTime st + samplePeriod st\<rparr>)
         else Inl (Undefined WritePastSamples))
      else Inr st)"

text \<open>
  The choice of \<^verbatim>\<open>temp_window\<close>: at capacity the oldest window is swapped out and erased
  from the front of \<^verbatim>\<open>windows_\<close>, otherwise a fresh matrix is allocated. The result is
  \<^verbatim>\<open>temp_window\<close> with the remaining windows.
\<close>

definition recycle_window :: "EnsembleHarmonic \<Rightarrow> error + (Matrix \<times> Matrix list)" where
  "recycle_window st =
     (if length (windows st) = nWindows st then
        (case windows st of
           [] \<Rightarrow> Inl (Undefined FrontOfEmptyWindows)
         | w # ws \<Rightarrow> Inr (w, ws))
      else Inr (Matrix_new 1 (nBins st), windows st))"

text \<open>
  \<^verbatim>\<open>new_window\<close> after the blur: a fresh \<open>1 \<times> nBins\<close> matrix whose backing vector has
  been filled by \<^verbatim>\<open>BlurToGrid\<close> from the whole of \<^verbatim>\<open>distanceSamples_\<close>.
\<close>

definition blurred_window :: "EnsembleHarmonic \<Rightarrow> Matrix" where
  "blurred_window st =
     (let new_window = Matrix_new 1 (nBins st)
      in new_window\<lparr>vector :=
           BlurToGrid (minDist st) (maxDist st) (sigma st) (distanceSamples st)
             (vector new_window)\<rparr>)"

text \<open>
  The rebuild of \<^verbatim>\<open>histogram_\<close>: the body of the inner loop with its three checked
  \<^verbatim>\<open>at\<close> accesses, the inner loop over the columns of one window, and the outer loop
  over the windows.
\<close>

definition add_bin :: "real list \<Rightarrow> Matrix \<Rightarrow> real list \<Rightarrow> nat \<Rightarrow> error + real list" where
  "add_bin experimental' window hist i =
     (if i < length hist \<and> i < length (vector window) \<and> i < length experimental'
      then Inr (hist[i := hist ! i + (vector window ! i - experimental' ! i)])
      else Inl OutOfRange)"

fun add_bins :: "real list \<Rightarrow> Matrix \<Rightarrow> nat list \<Rightarrow> real list \<Rightarrow> error + real list" where
  "add_bins experimental' window [] hist = Inr hist"
| "add_bins experimental' window (i # rest) hist =
     (case add_bin experimental' window hist i of
        Inl e \<Rightarrow> Inl e
      | Inr hist' \<Rightarrow> add_bins experimental' window rest hist')"

fun add_windows :: "real list \<Rightarrow> Matrix list \<Rightarrow> real list \<Rightarrow> error + real list" where
  "add_windows experimental' [] hist = Inr hist"
| "add_windows experimental' (window # rest) hist =
     (case add_bins experimental' window [0..<cols window] hist of
        Inl e \<Rightarrow> Inl e
      | Inr hist' \<Rightarrow> add_windows experimental' rest hist')"

text \<open>
  The body of \<^verbatim>\<open>if (t >= nextWindowUpdateTime_)\<close>. The result of the reduction is
  written to \<^verbatim>\<open>temp_window\<close>, which goes out of scope at the end of the block; the matrix
  moved into \<^verbatim>\<open>windows_\<close> is \<^verbatim>\<open>new_window\<close>.
\<close>

definition window_update ::
  "EnsembleResources \<Rightarrow> real \<Rightarrow> EnsembleHarmonic \<Rightarrow> error + EnsembleHarmonic" where
  "window_update resources t st =
     (case recycle_window st of
        Inl e \<Rightarrow> Inl e
      | Inr (temp_window, remaining) \<Rightarrow>
          let new_window = blurred_window st
          in (case reduce resources new_window temp_window of
                Inl e \<Rightarrow> Inl e
              | Inr reduced \<Rightarrow>
                  let windows' = remaining @ [new_window];
                      cleared = map (\<lambda>bin. 0) (histogram st)
                  in (case add_windows (experimental st) windows' cleared of
                        Inl e \<Rightarrow> Inl e
                      | Inr histogram' \<Rightarrow>
                          Inr (st\<lparr>windows := windows',
                                  histogram := histogram',
                                  nextWindowUpdateTime :=
                                    nextWindowUpdateTime st + windowUpdatePeriod st,
                                  currentWindow := currentWindow st + 1,
                                  currentSample := 0,
                                  nextSampleTime := t + samplePeriod st\<rparr>))))"

definition callback ::
  "EnsembleResources \<Rightarrow> EnsembleHarmonic \<Rightarrow> Vector \<Rightarrow> Vector \<Rightarrow> real
     \<Rightarrow> error + EnsembleHarmonic" where
  "callback resources st v v0 t =
     (let rdiff = vminus v v0;
          Rsquared = dot rdiff rdiff;
          R = sqrt Rsquared
      in (case store_sample t R st of
            Inl e \<Rightarrow> Inl e
          | Inr st1 \<Rightarrow>
              if t \<ge> nextWindowUpdateTime st1 then window_update resources t st1
              else Inr st1))"

subsection \<open>\<^verbatim>\<open>EnsembleHarmonic::calculate\<close>\<close>

text \<open>
  The loop counter \<^verbatim>\<open>n\<close> of the in-range branch is an \<^verbatim>\<open>int\<close> in the source; it is a
  natural number here, which agrees for every histogram of fewer than \<open>2^31\<close> bins.
  \<^verbatim>\<open>histogram_.at(n)\<close> is always within range, since \<open>n\<close> runs below the size of
  \<^verbatim>\<open>histogram_\<close>.
\<close>

definition calculate :: "EnsembleHarmonic \<Rightarrow> Vector \<Rightarrow> Vector \<Rightarrow> real \<Rightarrow> PotentialPointData" where
  "calculate st v v0 t =
     (let rdiff = vminus v v0;
          Rsquared = dot rdiff rdiff;
          R = sqrt Rsquared;
          output = PotentialPointData_new
      in if length (windows st) = nWindows st then
           if R \<noteq> 0 then
             let dev = R;
                 f = (if dev > maxDist st then k st * (maxDist st - dev)
                      else if dev < minDist st then - k st * (minDist st - dev)
                      else
                        let numBins = length (histogram st);
                            normConst = sqrt (2 * pi) * sigma st ^ 3;
                            f_scal =
                              foldl (\<lambda>f_scal n.
                                  let x = real n * binWidth st - dev;
                                      argExp = - 0.5 * (x / sigma st)\<^sup>2
                                  in f_scal + histogram st ! n * x / normConst * exp argExp)
                                0 [0..<numBins]
                        in - k st * f_scal)
             in output\<lparr>force := vscale (f / vnorm rdiff) rdiff\<rparr>
           else output
         else output)"

text \<open>
  The same body once more, with the two outcomes that a real-valued \<open>calculate\<close> cannot
  show. A quotient of doubles whose divisor is zero raises nothing in C++: it is an infinity
  or a NaN, which is not a real number. \<open>divide_double\<close> gives \<open>None\<close> for such a
  quotient, and whatever is computed from \<open>None\<close> is \<open>None\<close>. The checked
  \<^verbatim>\<open>histogram_.at(n)\<close> throws outside the histogram.
\<close>

definition divide_double :: "real \<Rightarrow> real \<Rightarrow> real option" where
  "divide_double a b = (if b = 0 then None else Some (a / b))"

text \<open>
  The loop of the in-range branch over the bin indices still to visit: \<^verbatim>\<open>x / sigma_\<close>
  inside \<^verbatim>\<open>pow\<close>, then \<^verbatim>\<open>histogram_.at(n) * x / normConst * exp(argExp)\<close> added to
  \<^verbatim>\<open>f_scal\<close>.
\<close>

fun bias_loop ::
  "EnsembleHarmonic \<Rightarrow> real \<Rightarrow> real \<Rightarrow> nat list \<Rightarrow> real option \<Rightarrow> error + real option" where
  "bias_loop st dev normConst [] f_scal = Inr f_scal"
| "bias_loop st dev normConst (n # rest) f_scal =
     (if n < length (histogram st) then
        let x = real n * binWidth st - dev;
            argExp = (case divide_double x (sigma st) of
                        None \<Rightarrow> None
                      | Some q \<Rightarrow> Some (- 0.5 * q\<^sup>2));
            summand = (case divide_double (histogram st ! n * x) normConst of
                         None \<Rightarrow> None
                       | Some w \<Rightarrow>
                           (case argExp of
                              None \<Rightarrow> None
                            | Some a \<Rightarrow> Some (w * exp a)))
        in bias_loop st dev normConst rest
             (case f_scal of
                None \<Rightarrow> None
              | Some s \<Rightarrow> (case summand of None \<Rightarrow> None | Some u \<Rightarrow> Some (s + u)))
      else Inl OutOfRange)"

text \<open>
  \<open>calculate_checked\<close> returns \<open>Inl\<close> when an access throws, \<open>Inr None\<close> when the call
  returns an output whose force is not a vector of real numbers because a quotient with a
  zero divisor was evaluated, and \<open>Inr (Some output)\<close> otherwise. The last quotient is
  \<^verbatim>\<open>f / norm(rdiff)\<close>.
\<close>

definition calculate_checked ::
  "EnsembleHarmonic \<Rightarrow> Vector \<Rightarrow> Vector \<Rightarrow> real \<Rightarrow> error + PotentialPointData option" where
  "calculate_checked st v v0 t =
     (let rdiff = vminus v v0;
          Rsquared = dot rdiff rdiff;
          R = sqrt Rsquared;
          output = PotentialPointData_new
      in if length (windows st) = nWindows st then
           if R \<noteq> 0 then
             let dev = R
             in (case (if dev > maxDist st then Inr (Some (k st * (maxDist st - dev)))
                       else if dev < minDist st then Inr (Some (- k st * (minDist st - dev)))
                       else
                         let numBins = length (histogram st);
                             normConst = sqrt (2 * pi) * sigma st ^ 3
                         in (case bias_loop st dev normConst [0..<numBins] (Some 0) of
                               Inl e \<Rightarrow> Inl e
                             | Inr None \<Rightarrow> Inr None
                             | Inr (Some f_scal) \<Rightarrow> Inr (Some (- k st * f_scal))))
                 of
                   Inl e \<Rightarrow> Inl e
                 | Inr None \<Rightarrow> Inr None
                 | Inr (Some f) \<Rightarrow>
                     (case divide_double f (vnorm rdiff) of
                        None \<Rightarrow> Inr None
                      | Some q \<Rightarrow> Inr (Some (output\<lparr>force := vscale q rdiff\<rparr>))))
           else Inr (Some output)
         else Inr (Some output))"

subsection \<open>Runs of the engine\<close>

text \<open>
  A run is a sequence of \<^verbatim>\<open>callback\<close> calls, each with the two positions and the
  simulation time; it ends at the first call that fails.
\<close>

type_synonym step = "Vector \<times> Vector \<times> real"

fun run :: "EnsembleResources \<Rightarrow> EnsembleHarmonic \<Rightarrow> step list \<Rightarrow> error + EnsembleHarmonic" where
  "run resources st [] = Inr st"
| "run resources st ((v, v0, t) # steps) =
     (case callback resources st v v0 t of
        Inl e \<Rightarrow> Inl e
      | Inr st' \<Rightarrow> run resources st' steps)"

text \<open>
  The windows that the window-update cycles of a run produce, oldest first: one per call
  whose time has reached the window threshold. (The blur reads only members that the window
  update leaves alone, so the window a cycle produced can be read off the state after it.)
\<close>

fun produced :: "EnsembleResources \<Rightarrow> EnsembleHarmonic \<Rightarrow> step list \<Rightarrow> Matrix list" where
  "produced resources st [] = []"
| "produced resources st ((v, v0, t) # steps) =
     (case callback resources st v v0 t of
        Inl e \<Rightarrow> []
      | Inr st' \<Rightarrow>
          (if t \<ge> nextWindowUpdateTime st then [blurred_window st'] else [])
          @ produced resources st' steps)"

text \<open>The sum of bin \<open>i\<close> over a list of windows.\<close>

definition bin_sum :: "Matrix list \<Rightarrow> nat \<Rightarrow> real" where
  "bin_sum ws i = (\<Sum>w\<leftarrow>ws. vector w ! i)"

text \<open>
  The shape invariant that the constructor establishes and every successful
  \<^verbatim>\<open>callback\<close> keeps: the histogram has \<open>nBins\<close> bins, the sample buffer \<open>nSamples\<close>
  slots, every stored window is \<open>1 \<times> nBins\<close>, and the history holds at most
  \<open>nWindows\<close> windows.
\<close>

definition well_formed :: "EnsembleHarmonic \<Rightarrow> bool" where
  "well_formed st \<longleftrightarrow>
     length (histogram st) = nBins st \<and>
     length (distanceSamples st) = nSamples st \<and>
     list_all (\<lambda>w. rows w = 1 \<and> cols w = nBins st \<and> length (vector w) = nBins st)
       (windows st) \<and>
     length (windows st) \<le> nWindows st"

subsection \<open>Scenarios\<close>

text \<open>
  Concrete inputs on which the theorems below are exercised. \<open>sum_of_replicas N\<close> is a
  reduction function for \<open>N\<close> identical replicas: it writes \<open>N\<close> times \<open>send\<close> into
  \<open>receive\<close>. \<open>demo_engine\<close> is an engine with one bin on the interval from 0 to 1, the
  reference distribution \<open>[1]\<close>, sample period 1, force constant 1 and kernel width 1.
\<close>

definition origin :: Vector where
  "origin = Vec 0 0 0"

definition sum_of_replicas :: "nat \<Rightarrow> EnsembleResources" where
  "sum_of_replicas N send receive =
     Inr (receive\<lparr>vector := map (\<lambda>x. real N * x) (vector send)\<rparr>)"

definition demo_engine :: "nat \<Rightarrow> nat \<Rightarrow> real \<Rightarrow> EnsembleHarmonic" where
  "demo_engine nsamples nwindows window_update_period =
     EnsembleHarmonic_new 1 0 1 [1] nsamples 1 nwindows window_update_period 1 1"

definition after_warm_up :: EnsembleHarmonic where
  "after_warm_up = projr (run (sum_of_replicas 1) (demo_engine 1 1 1) [(origin, origin, 1)])"

definition after_one_cycle :: EnsembleHarmonic where
  "after_one_cycle =
     projr (run (sum_of_replicas 1) (demo_engine 1 2 1) [(origin, origin, 1)])"

definition after_two_cycles :: EnsembleHarmonic where
  "after_two_cycles =
     projr (run (sum_of_replicas 1) (demo_engine 1 2 1)
       [(origin, origin, 1), (origin, origin, 2)])"

definition after_three_cycles :: EnsembleHarmonic where
  "after_three_cycles =
     projr (run (sum_of_replicas 1) (demo_engine 1 2 1)
       [(origin, origin, 1), (Vec 2 0 0, origin, 2), (Vec 3 0 0, origin, 3)])"

definition after_doubling_reduction :: EnsembleHarmonic where
  "after_doubling_reduction =
     projr (callback (sum_of_replicas 2) (demo_engine 1 2 1) origin origin 1)"

definition after_late_sample :: EnsembleHarmonic where
  "after_late_sample =
     projr (callback (sum_of_replicas 1) (demo_engine 5 2 10) origin origin (3 / 2))"

definition after_late_window :: EnsembleHarmonic where
  "after_late_window =
     projr (callback (sum_of_replicas 1) (demo_engine 5 2 10) origin origin 12)"

definition after_short_window :: EnsembleHarmonic where
  "after_short_window =
     projr (callback (sum_of_replicas 1) (demo_engine 2 2 1) (Vec 2 0 0) origin 1)"

section \<open>The Gaussian blur\<close>

lemma foldl_scaled_sum:
  "foldl (\<lambda>b d. b + c * g d) a ds = a + c * (\<Sum>d\<leftarrow>ds. g d)" for a c :: real
  by (induction ds arbitrary: a) (simp_all add: algebra_simps)

lemma length_BlurToGrid:
  "length (BlurToGrid min_dist max_dist \<sigma> distances grid) = length grid"
  by (simp add: BlurToGrid_def Let_def)

lemma blur_kernel_arg:
  "- (x - d) * (x - d) * (1 / (2 * \<sigma> * \<sigma>)) = - (x - d)\<^sup>2 / (2 * \<sigma>\<^sup>2)"
  for x d \<sigma> :: real
proof -
  have "- (x - d) * (x - d) = - ((x - d) * (x - d))"
    by (rule mult_minus_left)
  then show ?thesis
    by (simp only: power2_eq_square mult.assoc times_divide_eq_right mult_1_right)
qed

lemma BlurToGrid_nth:
  assumes "i < length grid"
  shows "BlurToGrid min_dist max_dist \<sigma> distances grid ! i =
     1 / (real (length distances) * sqrt (2 * pi * \<sigma> * \<sigma>)) *
     (\<Sum>d\<leftarrow>distances.
        exp (- (real i * ((max_dist - min_dist) / real (length grid)) - d)\<^sup>2 / (2 * \<sigma>\<^sup>2)))"
proof -
  have "BlurToGrid min_dist max_dist \<sigma> distances grid ! i =
     foldl (\<lambda>b d. b + 1 / (real (length distances) * sqrt (2 * pi * \<sigma> * \<sigma>)) *
        exp (- (real i * ((max_dist - min_dist) / real (length grid)) - d) *
               (real i * ((max_dist - min_dist) / real (length grid)) - d) *
             (1 / (2 * \<sigma> * \<sigma>)))) 0 distances"
    using assms by (simp only: BlurToGrid_def Let_def nth_map length_upt diff_zero nth_upt add_0)
  also have "\<dots> = 1 / (real (length distances) * sqrt (2 * pi * \<sigma> * \<sigma>)) *
     (\<Sum>d\<leftarrow>distances.
        exp (- (real i * ((max_dist - min_dist) / real (length grid)) - d) *
               (real i * ((max_dist - min_dist) / real (length grid)) - d) *
             (1 / (2 * \<sigma> * \<sigma>))))"
    by (simp only: foldl_scaled_sum add_0)
  finally show ?thesis
    by (simp only: blur_kernel_arg)
qed

text \<open>
  Claim C4. For a nonempty sample sequence and a grid of \<open>N\<close> bins, the blur returns a
  grid of \<open>N\<close> bins whose bin \<open>i\<close> is \<open>1 / (numSamples * sqrt (2 pi) * sigma)\<close>
  times the sum over the samples of \<open>exp (- (x_i - sample)^2 / (2 sigma^2))\<close>, at
  \<open>x_i = i * (maxDist - minDist) / N\<close>, for every kernel width \<open>sigma > 0\<close>. The code
  normalises by \<open>sqrt (2 pi sigma sigma)\<close>, so that for any nonzero \<open>sigma\<close> the factor is
  \<open>1 / (numSamples * sqrt (2 pi) * |sigma|)\<close>.
\<close>

theorem BlurToGrid_density:
  assumes "distances \<noteq> []" and "\<sigma> \<noteq> 0" and "i < length grid"
  shows "length (BlurToGrid min_dist max_dist \<sigma> distances grid) = length grid \<and>
     BlurToGrid min_dist max_dist \<sigma> distances grid ! i =
       1 / (real (length distances) * sqrt (2 * pi) * \<bar>\<sigma>\<bar>) *
       (\<Sum>s\<leftarrow>distances.
          exp (- (real i * (max_dist - min_dist) / real (length grid) - s)\<^sup>2 / (2 * \<sigma>\<^sup>2))) \<and>
     (0 < \<sigma> \<longrightarrow>
      BlurToGrid min_dist max_dist \<sigma> distances grid ! i =
       1 / (real (length distances) * sqrt (2 * pi) * \<sigma>) *
       (\<Sum>s\<leftarrow>distances.
          exp (- (real i * (max_dist - min_dist) / real (length grid) - s)\<^sup>2 / (2 * \<sigma>\<^sup>2))))"
proof -
  have root: "sqrt (2 * pi * \<sigma> * \<sigma>) = sqrt (2 * pi) * \<bar>\<sigma>\<bar>"
    by (simp add: real_sqrt_mult mult.assoc)
  have general: "BlurToGrid min_dist max_dist \<sigma> distances grid ! i =
       1 / (real (length distances) * sqrt (2 * pi) * \<bar>\<sigma>\<bar>) *
       (\<Sum>s\<leftarrow>distances.
          exp (- (real i * (max_dist - min_dist) / real (length grid) - s)\<^sup>2 / (2 * \<sigma>\<^sup>2)))"
    unfolding BlurToGrid_nth [OF assms(3)] root
    by (simp only: mult.assoc times_divide_eq_right)
  have positive: "BlurToGrid min_dist max_dist \<sigma> distances grid ! i =
       1 / (real (length distances) * sqrt (2 * pi) * \<sigma>) *
       (\<Sum>s\<leftarrow>distances.
          exp (- (real i * (max_dist - min_dist) / real (length grid) - s)\<^sup>2 / (2 * \<sigma>\<^sup>2)))"
    if "0 < \<sigma>"
  proof -
    from that have "\<bar>\<sigma>\<bar> = \<sigma>" by simp
    with general show ?thesis by (simp only:)
  qed
  show ?thesis
    using general positive length_BlurToGrid by blast
qed

theorem BlurToGrid_density_witness:
  "[0::real] \<noteq> [] \<and> (1::real) \<noteq> 0 \<and> (0::nat) < length [0::real] \<and> (0::real) < 1 \<and>
   length (BlurToGrid 0 1 1 [0] [0]) = 1 \<and>
   BlurToGrid 0 1 1 [0] [0] ! 0 = 1 / sqrt (2 * pi)"
  using BlurToGrid_density [of "[0]" 1 0 "[0]" 0 1] by simp

section \<open>The sampling and window-update cycle\<close>

subsection \<open>What a successful call did\<close>

lemma store_sample_Inr:
  assumes "store_sample t R st = Inr st1"
  shows "st1 = (if t \<ge> nextSampleTime st
                then st\<lparr>distanceSamples := (distanceSamples st)[currentSample st := R],
                        currentSample := currentSample st + 1,
                        nextSampleTime := nextSampleTime st + samplePeriod st\<rparr>
                else st)"
  using assms by (auto simp: store_sample_def split: if_splits)

lemma store_sample_fields:
  assumes "store_sample t R st = Inr st1"
  shows "nBins st1 = nBins st" "nWindows st1 = nWindows st" "windows st1 = windows st"
    "histogram st1 = histogram st" "experimental st1 = experimental st"
    "nSamples st1 = nSamples st" "samplePeriod st1 = samplePeriod st"
    "windowUpdatePeriod st1 = windowUpdatePeriod st"
    "nextWindowUpdateTime st1 = nextWindowUpdateTime st"
    "currentWindow st1 = currentWindow st"
    "minDist st1 = minDist st" "maxDist st1 = maxDist st" "sigma st1 = sigma st"
    "length (distanceSamples st1) = length (distanceSamples st)"
  using store_sample_Inr [OF assms] by (simp_all split: if_splits)

lemma window_update_Inr:
  assumes "window_update resources t st = Inr st'"
  obtains temp_window remaining histogram' where
    "recycle_window st = Inr (temp_window, remaining)"
    "add_windows (experimental st) (remaining @ [blurred_window st])
        (map (\<lambda>bin. 0) (histogram st)) = Inr histogram'"
    "st' = st\<lparr>windows := remaining @ [blurred_window st],
              histogram := histogram',
              nextWindowUpdateTime := nextWindowUpdateTime st + windowUpdatePeriod st,
              currentWindow := currentWindow st + 1,
              currentSample := 0,
              nextSampleTime := t + samplePeriod st\<rparr>"
  using assms
  by (auto simp: window_update_def Let_def split: sum.splits prod.splits)

lemma callback_Inr:
  assumes "callback resources st v v0 t = Inr st'"
  obtains st1 where
    "store_sample t (sqrt (dot (vminus v v0) (vminus v v0))) st = Inr st1"
    "if t \<ge> nextWindowUpdateTime st then window_update resources t st1 = Inr st'
     else st' = st1"
proof -
  from assms obtain st1 where
    s: "store_sample t (sqrt (dot (vminus v v0) (vminus v v0))) st = Inr st1"
    and r: "(if t \<ge> nextWindowUpdateTime st1 then window_update resources t st1 else Inr st1) = Inr st'"
    by (auto simp: callback_def Let_def split: sum.splits)
  from r store_sample_fields(9) [OF s]
  have "if t \<ge> nextWindowUpdateTime st then window_update resources t st1 = Inr st'
     else st' = st1"
    by (auto split: if_splits)
  with s show thesis by (rule that)
qed

lemma recycle_window_Inr:
  assumes "recycle_window st = Inr (temp_window, remaining)"
  shows "remaining = (if length (windows st) = nWindows st then tl (windows st) else windows st)"
    and "length (windows st) = nWindows st \<Longrightarrow> windows st \<noteq> []"
  using assms by (auto simp: recycle_window_def split: if_splits list.splits)

lemma blurred_window_shape:
  "rows (blurred_window st) = 1" "cols (blurred_window st) = nBins st"
  "length (vector (blurred_window st)) = nBins st"
  by (simp_all add: blurred_window_def Let_def Matrix_new_def length_BlurToGrid)

lemma blurred_window_cong:
  assumes "nBins st' = nBins st" "minDist st' = minDist st" "maxDist st' = maxDist st"
    "sigma st' = sigma st" "distanceSamples st' = distanceSamples st"
  shows "blurred_window st' = blurred_window st"
  using assms by (simp add: blurred_window_def)

subsection \<open>The rebuild of the histogram\<close>

lemma add_bin_Inr:
  assumes "add_bin e w h i = Inr h'"
  shows "i < length h" "i < length (vector w)" "i < length e"
    "h' = h[i := h ! i + (vector w ! i - e ! i)]"
  using assms by (auto simp: add_bin_def split: if_splits)

lemma add_bins_Inr:
  assumes "add_bins e w idx h = Inr h'" and "distinct idx"
  shows "length h' = length h \<and>
     (\<forall>i < length h. h' ! i = h ! i + (if i \<in> set idx then vector w ! i - e ! i else 0))"
  using assms
proof (induction idx arbitrary: h)
  case Nil
  then show ?case by simp
next
  case (Cons j idx)
  from Cons.prems(1) obtain h1 where
    b: "add_bin e w h j = Inr h1" and r: "add_bins e w idx h1 = Inr h'"
    by (auto split: sum.splits)
  have h1: "h1 = h[j := h ! j + (vector w ! j - e ! j)]" and j: "j < length h"
    using add_bin_Inr [OF b] by simp_all
  from Cons.prems(2) have d: "distinct idx" and nj: "j \<notin> set idx" by simp_all
  from Cons.IH [OF r d] have
    len: "length h' = length h1" and
    val: "\<And>i. i < length h1 \<Longrightarrow>
            h' ! i = h1 ! i + (if i \<in> set idx then vector w ! i - e ! i else 0)"
    by simp_all
  show ?case
  proof (intro conjI allI impI)
    show "length h' = length h" using len h1 by simp
  next
    fix i assume i: "i < length h"
    then have "h' ! i = h1 ! i + (if i \<in> set idx then vector w ! i - e ! i else 0)"
      using val h1 by simp
    then show "h' ! i = h ! i + (if i \<in> set (j # idx) then vector w ! i - e ! i else 0)"
      using h1 i nj by (cases "i = j") auto
  qed
qed

lemma add_windows_Inr:
  assumes "add_windows e ws h = Inr h'"
  shows "length h' = length h \<and>
     (\<forall>i < length h.
        h' ! i = h ! i + (\<Sum>w\<leftarrow>ws. if i < cols w then vector w ! i - e ! i else 0))"
  using assms
proof (induction ws arbitrary: h)
  case Nil
  then show ?case by simp
next
  case (Cons w ws)
  from Cons.prems obtain h1 where
    b: "add_bins e w [0..<cols w] h = Inr h1" and r: "add_windows e ws h1 = Inr h'"
    by (auto split: sum.splits)
  from add_bins_Inr [OF b] have
    len1: "length h1 = length h" and
    val1: "\<And>i. i < length h \<Longrightarrow>
             h1 ! i = h ! i + (if i < cols w then vector w ! i - e ! i else 0)"
    by simp_all
  from Cons.IH [OF r] have
    len: "length h' = length h1" and
    val: "\<And>i. i < length h1 \<Longrightarrow>
            h' ! i = h1 ! i + (\<Sum>w\<leftarrow>ws. if i < cols w then vector w ! i - e ! i else 0)"
    by simp_all
  show ?case
    using len len1 val val1 by simp
qed

lemma sum_list_window_diff:
  assumes "list_all (\<lambda>w. cols w = n) ws" and "i < n"
  shows "(\<Sum>w\<leftarrow>ws. if i < cols w then vector w ! i - e ! i else 0) =
         bin_sum ws i - real (length ws) * e ! i"
  using assms by (induction ws) (simp_all add: bin_sum_def algebra_simps)

subsection \<open>The shape invariant\<close>

lemma well_formed_new:
  "well_formed (EnsembleHarmonic_new nbins min_dist max_dist e nsamples sample_period
       nwindows window_update_period K \<sigma>)"
  by (simp add: well_formed_def EnsembleHarmonic_new_def)

lemma well_formed_store_sample:
  assumes "well_formed st" and "store_sample t R st = Inr st1"
  shows "well_formed st1"
  using assms(1) store_sample_fields [OF assms(2)] by (simp add: well_formed_def)

lemma well_formed_window_update:
  assumes wf: "well_formed st" and upd: "window_update resources t st = Inr st'"
  shows "well_formed st'"
proof -
  from upd obtain temp_window remaining histogram' where
    rec: "recycle_window st = Inr (temp_window, remaining)" and
    acc: "add_windows (experimental st) (remaining @ [blurred_window st])
        (map (\<lambda>bin. 0) (histogram st)) = Inr histogram'" and
    st': "st' = st\<lparr>windows := remaining @ [blurred_window st],
              histogram := histogram',
              nextWindowUpdateTime := nextWindowUpdateTime st + windowUpdatePeriod st,
              currentWindow := currentWindow st + 1,
              currentSample := 0,
              nextSampleTime := t + samplePeriod st\<rparr>"
    by (rule window_update_Inr)
  have rem: "remaining = (if length (windows st) = nWindows st then tl (windows st) else windows st)"
    by (rule recycle_window_Inr(1) [OF rec])
  have ne: "length (windows st) = nWindows st \<Longrightarrow> windows st \<noteq> []"
    by (rule recycle_window_Inr(2) [OF rec])
  have shape: "list_all (\<lambda>w. rows w = 1 \<and> cols w = nBins st \<and> length (vector w) = nBins st) remaining"
    using wf rem by (cases "windows st") (auto simp: well_formed_def)
  have len: "length (remaining @ [blurred_window st]) \<le> nWindows st"
    using wf rem ne by (cases "windows st") (auto simp: well_formed_def)
  have hlen: "length histogram' = nBins st"
    using add_windows_Inr [OF acc] wf by (simp add: well_formed_def)
  show ?thesis
    using wf shape len hlen by (simp add: st' well_formed_def blurred_window_shape)
qed

lemma well_formed_callback:
  assumes "well_formed st" and "callback resources st v v0 t = Inr st'"
  shows "well_formed st'"
proof -
  from assms(2) obtain st1 where
    s: "store_sample t (sqrt (dot (vminus v v0) (vminus v v0))) st = Inr st1" and
    r: "if t \<ge> nextWindowUpdateTime st then window_update resources t st1 = Inr st'
        else st' = st1"
    by (rule callback_Inr)
  have wf1: "well_formed st1" by (rule well_formed_store_sample [OF assms(1) s])
  show ?thesis
    using r wf1 well_formed_window_update [OF wf1] by (auto split: if_splits)
qed

lemma well_formed_run:
  assumes "well_formed st" and "run resources st steps = Inr st'"
  shows "well_formed st'"
  using assms
proof (induction steps arbitrary: st)
  case Nil
  then show ?case by simp
next
  case (Cons s steps)
  obtain v v0 t where s: "s = (v, v0, t)" by (cases s)
  from Cons.prems(2) obtain st1 where
    c: "callback resources st v v0 t = Inr st1" and r: "run resources st1 steps = Inr st'"
    by (auto simp: s split: sum.splits)
  show ?case
    by (rule Cons.IH [OF well_formed_callback [OF Cons.prems(1) c] r])
qed

subsection \<open>Evaluating the scenarios\<close>

lemmas eval_defs = EnsembleHarmonic_new_def callback_def store_sample_def
      window_update_def recycle_window_def blurred_window_def Matrix_new_def reduce_def
      add_bin_def length_BlurToGrid dot_def vminus_def Let_def origin_def sum_of_replicas_def
      demo_engine_def

lemma run_one_cycle:
  "run (sum_of_replicas 1) (demo_engine 1 2 1) [(origin, origin, 1)] = Inr after_one_cycle"
  unfolding after_one_cycle_def by (simp add: eval_defs)

lemma after_one_cycle_fields:
  "currentWindow after_one_cycle = 1" "nWindows after_one_cycle = 2"
  unfolding after_one_cycle_def by (simp_all add: eval_defs)

lemma run_two_cycles:
  "run (sum_of_replicas 1) (demo_engine 1 2 1) [(origin, origin, 1), (origin, origin, 2)] =
     Inr after_two_cycles"
  unfolding after_two_cycles_def by (simp add: eval_defs)

lemma after_two_cycles_fields:
  "histogram after_two_cycles = [2 * BlurToGrid 0 1 1 [0] [0] ! 0 - 2]"
  "windows after_two_cycles =
     [\<lparr>rows = 1, cols = 1, vector = BlurToGrid 0 1 1 [0] [0]\<rparr>,
      \<lparr>rows = 1, cols = 1, vector = BlurToGrid 0 1 1 [0] [0]\<rparr>]"
  "experimental after_two_cycles = [1]"
  unfolding after_two_cycles_def by (simp_all add: eval_defs)

lemma run_three_cycles:
  "run (sum_of_replicas 1) (demo_engine 1 2 1)
       [(origin, origin, 1), (Vec 2 0 0, origin, 2), (Vec 3 0 0, origin, 3)] =
     Inr after_three_cycles"
  unfolding after_three_cycles_def by (simp add: eval_defs)

lemma produced_three_cycles:
  "produced (sum_of_replicas 1) (demo_engine 1 2 1)
       [(origin, origin, 1), (Vec 2 0 0, origin, 2), (Vec 3 0 0, origin, 3)] =
     [\<lparr>rows = 1, cols = 1, vector = BlurToGrid 0 1 1 [0] [0]\<rparr>,
      \<lparr>rows = 1, cols = 1, vector = BlurToGrid 0 1 1 [2] [0]\<rparr>,
      \<lparr>rows = 1, cols = 1, vector = BlurToGrid 0 1 1 [3] [0]\<rparr>]"
  by (simp add: eval_defs)

lemma run_warm_up:
  "run (sum_of_replicas 1) (demo_engine 1 1 1) [(origin, origin, 1)] = Inr after_warm_up"
  unfolding after_warm_up_def by (simp add: eval_defs)

lemma after_warm_up_fields:
  "length (windows after_warm_up) = 1" "nWindows after_warm_up = 1"
  "maxDist after_warm_up = 1" "minDist after_warm_up = 0" "k after_warm_up = 1"
  unfolding after_warm_up_def by (simp_all add: eval_defs)

lemma callback_late_sample:
  "callback (sum_of_replicas 1) (demo_engine 5 2 10) origin origin (3 / 2) =
     Inr after_late_sample"
  unfolding after_late_sample_def by (simp add: eval_defs)

lemma callback_late_window:
  "callback (sum_of_replicas 1) (demo_engine 5 2 10) origin origin 12 = Inr after_late_window"
  unfolding after_late_window_def by (simp add: eval_defs)

lemma demo_engine_fields:
  "nextSampleTime (demo_engine ns nw wp) = 1" "samplePeriod (demo_engine ns nw wp) = 1"
  "nextWindowUpdateTime (demo_engine ns nw wp) = wp"
  "windowUpdatePeriod (demo_engine ns nw wp) = wp"
  by (simp_all add: demo_engine_def EnsembleHarmonic_new_def)

lemma callback_short_window:
  "callback (sum_of_replicas 1) (demo_engine 2 2 1) (Vec 2 0 0) origin 1 =
     Inr after_short_window"
  unfolding after_short_window_def by (simp add: eval_defs)

lemma callback_doubling_reduction:
  "callback (sum_of_replicas 2) (demo_engine 1 2 1) origin origin 1 =
     Inr after_doubling_reduction"
  unfolding after_doubling_reduction_def by (simp add: eval_defs)

lemma blur_of_origin: "BlurToGrid 0 1 1 [0] [0] = [1 / sqrt (2 * pi)]"
  by (simp add: BlurToGrid_def)

section \<open>The bias histogram\<close>

lemma window_update_histogram:
  assumes wf: "well_formed st" and upd: "window_update resources t st = Inr st'"
    and i: "i < nBins st"
  shows "histogram st' ! i =
     bin_sum (windows st') i - real (length (windows st')) * experimental st' ! i"
proof -
  from upd obtain temp_window remaining histogram' where
    acc: "add_windows (experimental st) (remaining @ [blurred_window st])
        (map (\<lambda>bin. 0) (histogram st)) = Inr histogram'" and
    st': "st' = st\<lparr>windows := remaining @ [blurred_window st],
              histogram := histogram',
              nextWindowUpdateTime := nextWindowUpdateTime st + windowUpdatePeriod st,
              currentWindow := currentWindow st + 1,
              currentSample := 0,
              nextSampleTime := t + samplePeriod st\<rparr>"
    by (rule window_update_Inr)
  have "well_formed st'" by (rule well_formed_window_update [OF wf upd])
  then have shape: "list_all (\<lambda>w. cols w = nBins st) (remaining @ [blurred_window st])"
    by (simp add: st' well_formed_def list_all_iff)
  have "i < length (map (\<lambda>bin. 0::real) (histogram st))"
    using wf i by (simp add: well_formed_def)
  with add_windows_Inr [OF acc] have
    "histogram' ! i = map (\<lambda>bin. 0) (histogram st) ! i +
       (\<Sum>w\<leftarrow>remaining @ [blurred_window st].
           if i < cols w then vector w ! i - experimental st ! i else 0)"
    by blast
  also have "map (\<lambda>bin. 0::real) (histogram st) ! i = 0"
    using wf i by (simp add: well_formed_def)
  finally have "histogram' ! i =
      bin_sum (remaining @ [blurred_window st]) i -
      real (length (remaining @ [blurred_window st])) * experimental st ! i"
    by (simp only: sum_list_window_diff [OF shape i] add_0)
  then show ?thesis
    by (simp add: st')
qed

lemma callback_histogram:
  assumes wf: "well_formed st" and fires: "t \<ge> nextWindowUpdateTime st"
    and cb: "callback resources st v v0 t = Inr st'" and i: "i < nBins st"
  shows "histogram st' ! i =
     bin_sum (windows st') i - real (length (windows st')) * experimental st' ! i"
proof -
  from cb obtain st1 where
    s: "store_sample t (sqrt (dot (vminus v v0) (vminus v v0))) st = Inr st1" and
    r: "if t \<ge> nextWindowUpdateTime st then window_update resources t st1 = Inr st'
        else st' = st1"
    by (rule callback_Inr)
  from r fires have upd: "window_update resources t st1 = Inr st'" by simp
  have wf1: "well_formed st1" by (rule well_formed_store_sample [OF wf s])
  have "i < nBins st1" using i store_sample_fields(1) [OF s] by simp
  then show ?thesis by (rule window_update_histogram [OF wf1 upd])
qed

text \<open>
  Claim C1, as the code has it. After a window-update cycle that started in a well-formed
  state, every bin \<open>i\<close> of the bias histogram is the sum of bin \<open>i\<close> over the windows now
  in the history, minus the reference value of the bin once for each of those windows: the
  subtraction sits inside the loop over the windows.
\<close>

theorem histogram_rebuilt:
  assumes "well_formed st" and "t \<ge> nextWindowUpdateTime st"
    and "callback resources st v v0 t = Inr st'" and "i < nBins st"
  shows "histogram st' ! i =
     bin_sum (windows st') i - real (length (windows st')) * experimental st' ! i"
  using assms by (rule callback_histogram)

theorem histogram_rebuilt_witness:
  "well_formed after_one_cycle \<and>
   2 \<ge> nextWindowUpdateTime after_one_cycle \<and>
   callback (sum_of_replicas 1) after_one_cycle origin origin 2 = Inr after_two_cycles \<and>
   (0::nat) < nBins after_one_cycle \<and>
   histogram after_two_cycles ! 0 =
     bin_sum (windows after_two_cycles) 0 - 2 * experimental after_two_cycles ! 0"
proof -
  have c1: "callback (sum_of_replicas 1) (demo_engine 1 2 1) origin origin 1 =
      Inr after_one_cycle"
    using run_one_cycle by (simp split: sum.splits)
  have c2: "callback (sum_of_replicas 1) after_one_cycle origin origin 2 = Inr after_two_cycles"
    using c1 run_two_cycles by (simp split: sum.splits)
  have wf: "well_formed after_one_cycle"
    by (rule well_formed_run [OF well_formed_new run_one_cycle [unfolded demo_engine_def]])
  have t: "2 \<ge> nextWindowUpdateTime after_one_cycle"
    and n: "(0::nat) < nBins after_one_cycle"
    unfolding after_one_cycle_def by (simp_all add: eval_defs)
  from histogram_rebuilt [OF wf t c2 n] have
    "histogram after_two_cycles ! 0 =
     bin_sum (windows after_two_cycles) 0 - 2 * experimental after_two_cycles ! 0"
    by (simp add: after_two_cycles_fields)
  with wf t c2 n show ?thesis by blast
qed

text \<open>
  Claim C1, as stated, fails. With the reference distribution \<open>[1]\<close> and two windows in the
  history, the code leaves \<open>2 b - 2\<close> in bin 0, where \<open>b\<close> is the blurred value of the
  bin; subtracting the reference once would leave \<open>2 b - 1\<close>.
\<close>

theorem histogram_rebuilt_counterexample:
  "run (sum_of_replicas 1) (demo_engine 1 2 1) [(origin, origin, 1), (origin, origin, 2)] =
     Inr after_two_cycles \<and>
   histogram after_two_cycles ! 0 \<noteq>
     bin_sum (windows after_two_cycles) 0 - experimental after_two_cycles ! 0"
proof (rule conjI)
  show "run (sum_of_replicas 1) (demo_engine 1 2 1) [(origin, origin, 1), (origin, origin, 2)] =
     Inr after_two_cycles"
    by (rule run_two_cycles)
  show "histogram after_two_cycles ! 0 \<noteq>
     bin_sum (windows after_two_cycles) 0 - experimental after_two_cycles ! 0"
    by (simp add: after_two_cycles_fields bin_sum_def)
qed

section \<open>The reduction\<close>

lemma callback_independent_of_replicas:
  "callback (sum_of_replicas N) st v v0 t = callback (sum_of_replicas M) st v v0 t"
  by (simp add: callback_def window_update_def reduce_def sum_of_replicas_def Let_def
      split: sum.splits prod.splits)

text \<open>
  Claim C2 does not hold of the code. The reduction is called and writes into
  \<^verbatim>\<open>temp_window\<close>, but the matrix appended to the history is \<^verbatim>\<open>new_window\<close>, the
  local estimate. With a reduction that doubles its input, the window stored after the first
  cycle is the local estimate \<open>[1 / sqrt (2 pi)]\<close>, not twice it, and the histogram is
  rebuilt from the local estimate.
\<close>

theorem reduced_histogram_not_stored:
  "callback (sum_of_replicas 2) (demo_engine 1 2 1) origin origin 1 =
     Inr after_doubling_reduction \<and>
   vector (blurred_window (demo_engine 1 2 1)) = [1 / sqrt (2 * pi)] \<and>
   map vector (windows after_doubling_reduction) = [[1 / sqrt (2 * pi)]] \<and>
   map vector (windows after_doubling_reduction) \<noteq> [[2 * (1 / sqrt (2 * pi))]] \<and>
   histogram after_doubling_reduction = [1 / sqrt (2 * pi) - 1]"
proof -
  have "windows after_doubling_reduction =
      [\<lparr>rows = 1, cols = 1, vector = BlurToGrid 0 1 1 [0] [0]\<rparr>]"
    and "histogram after_doubling_reduction = [BlurToGrid 0 1 1 [0] [0] ! 0 - 1]"
    and "vector (blurred_window (demo_engine 1 2 1)) = BlurToGrid 0 1 1 [0] [0]"
    unfolding after_doubling_reduction_def by (simp_all add: eval_defs)
  then show ?thesis
    using callback_doubling_reduction by (simp add: blur_of_origin)
qed

section \<open>The window history\<close>

lemma drop_window_step:
  assumes ws: "ws = drop (length A - n) A" and ne: "length ws = n \<Longrightarrow> ws \<noteq> []"
  shows "(if length ws = n then tl ws else ws) @ [x] = drop (length (A @ [x]) - n) (A @ [x])"
proof (cases "length A < n")
  case True
  then show ?thesis using ws by simp
next
  case False
  then have len: "length ws = n" using ws by simp
  with ne have "ws \<noteq> []" by simp
  with len have n: "0 < n" by auto
  have "tl ws = drop (Suc (length A - n)) A"
    using ws by (simp add: drop_Suc tl_drop)
  also have "Suc (length A - n) = Suc (length A) - n"
    using False by simp
  finally show ?thesis
    using len n False by simp
qed

lemma callback_windows:
  assumes cb: "callback resources st v v0 t = Inr st'"
  shows "nWindows st' = nWindows st"
    and "t \<ge> nextWindowUpdateTime st \<Longrightarrow>
           currentWindow st' = currentWindow st + 1 \<and>
           windows st' = (if length (windows st) = nWindows st then tl (windows st)
                          else windows st) @ [blurred_window st'] \<and>
           (length (windows st) = nWindows st \<longrightarrow> windows st \<noteq> [])"
    and "\<not> t \<ge> nextWindowUpdateTime st \<Longrightarrow>
           currentWindow st' = currentWindow st \<and> windows st' = windows st"
proof -
  from cb obtain st1 where
    s: "store_sample t (sqrt (dot (vminus v v0) (vminus v v0))) st = Inr st1" and
    r: "if t \<ge> nextWindowUpdateTime st then window_update resources t st1 = Inr st'
        else st' = st1"
    by (rule callback_Inr)
  note f = store_sample_fields [OF s]
  show "\<not> t \<ge> nextWindowUpdateTime st \<Longrightarrow>
           currentWindow st' = currentWindow st \<and> windows st' = windows st"
    using r f by simp
  {
    assume "t \<ge> nextWindowUpdateTime st"
    with r have upd: "window_update resources t st1 = Inr st'" by simp
    from upd obtain temp_window remaining histogram' where
      rec: "recycle_window st1 = Inr (temp_window, remaining)" and
      st': "st' = st1\<lparr>windows := remaining @ [blurred_window st1],
              histogram := histogram',
              nextWindowUpdateTime := nextWindowUpdateTime st1 + windowUpdatePeriod st1,
              currentWindow := currentWindow st1 + 1,
              currentSample := 0,
              nextSampleTime := t + samplePeriod st1\<rparr>"
      by (rule window_update_Inr)
    have b: "blurred_window st' = blurred_window st1"
      by (rule blurred_window_cong) (simp_all add: st')
    have "currentWindow st' = currentWindow st + 1 \<and>
           windows st' = (if length (windows st) = nWindows st then tl (windows st)
                          else windows st) @ [blurred_window st'] \<and>
           (length (windows st) = nWindows st \<longrightarrow> windows st \<noteq> []) \<and>
           nWindows st' = nWindows st"
      using recycle_window_Inr [OF rec] f unfolding b by (simp add: st')
  }
  note fired = this
  show "t \<ge> nextWindowUpdateTime st \<Longrightarrow>
           currentWindow st' = currentWindow st + 1 \<and>
           windows st' = (if length (windows st) = nWindows st then tl (windows st)
                          else windows st) @ [blurred_window st'] \<and>
           (length (windows st) = nWindows st \<longrightarrow> windows st \<noteq> [])"
    using fired by simp
  show "nWindows st' = nWindows st"
    using fired r f by (cases "t \<ge> nextWindowUpdateTime st") simp_all
qed

lemma run_windows:
  assumes "run resources st0 steps = Inr st"
    and "windows st0 = drop (length A - nWindows st0) A"
  shows "nWindows st = nWindows st0 \<and>
     currentWindow st = currentWindow st0 + length (produced resources st0 steps) \<and>
     windows st = drop (length (A @ produced resources st0 steps) - nWindows st0)
                       (A @ produced resources st0 steps)"
  using assms
proof (induction steps arbitrary: st0 A)
  case Nil
  then show ?case by simp
next
  case (Cons s steps)
  obtain v v0 t where s: "s = (v, v0, t)" by (cases s)
  from Cons.prems(1) obtain st1 where
    c: "callback resources st0 v v0 t = Inr st1" and r: "run resources st1 steps = Inr st"
    by (auto simp: s split: sum.splits)
  note cw = callback_windows [OF c]
  show ?case
  proof (cases "t \<ge> nextWindowUpdateTime st0")
    case True
    let ?x = "blurred_window st1"
    from cw(2) [OF True] have
      cur: "currentWindow st1 = currentWindow st0 + 1" and
      ws: "windows st1 = (if length (windows st0) = nWindows st0 then tl (windows st0)
                          else windows st0) @ [?x]" and
      ne: "length (windows st0) = nWindows st0 \<Longrightarrow> windows st0 \<noteq> []"
      by simp_all
    have "windows st1 = drop (length (A @ [?x]) - nWindows st0) (A @ [?x])"
      unfolding ws by (rule drop_window_step [OF Cons.prems(2) ne])
    then have inv: "windows st1 = drop (length (A @ [?x]) - nWindows st1) (A @ [?x])"
      using cw(1) by simp
    have p: "produced resources st0 (s # steps) = ?x # produced resources st1 steps"
      using c True by (simp add: s)
    from Cons.IH [OF r inv] show ?thesis
      using cw(1) cur by (simp add: p)
  next
    case False
    from cw(3) [OF False] have
      cur: "currentWindow st1 = currentWindow st0" and ws: "windows st1 = windows st0"
      by simp_all
    have inv: "windows st1 = drop (length A - nWindows st1) A"
      using Cons.prems(2) ws cw(1) by simp
    have p: "produced resources st0 (s # steps) = produced resources st1 steps"
      using c False by (simp add: s)
    from Cons.IH [OF r inv] show ?thesis
      using cw(1) cur by (simp add: p)
  qed
qed

lemma run_new_windows:
  assumes "run resources (EnsembleHarmonic_new nbins min_dist max_dist e nsamples sample_period
       nwindows window_update_period K \<sigma>) steps = Inr st"
  shows "nWindows st = nwindows \<and>
     currentWindow st = length (produced resources (EnsembleHarmonic_new nbins min_dist max_dist e nsamples sample_period
       nwindows window_update_period K \<sigma>) steps) \<and>
     windows st = drop (currentWindow st - nwindows)
                    (produced resources (EnsembleHarmonic_new nbins min_dist max_dist e nsamples sample_period
       nwindows window_update_period K \<sigma>) steps)"
  using run_windows [OF assms, of "[]"] by (simp add: EnsembleHarmonic_new_def)

text \<open>
  Claim C7. Let \<open>ws\<close> be the windows produced by the window-update cycles of a run from
  construction, oldest first. After the run the cycle counter is the number of cycles, the
  history holds \<open>min (length ws) nWindows\<close> windows, and it is exactly the last
  \<open>nWindows\<close> windows of \<open>ws\<close> in their order: once the history is full, each cycle
  removes the window that was produced \<open>nWindows\<close> cycles earlier.
\<close>

theorem window_history_fifo:
  assumes "run resources (EnsembleHarmonic_new nbins min_dist max_dist e nsamples sample_period
       nwindows window_update_period K \<sigma>) steps = Inr st"
    and "ws = produced resources (EnsembleHarmonic_new nbins min_dist max_dist e nsamples
       sample_period nwindows window_update_period K \<sigma>) steps"
  shows "currentWindow st = length ws \<and>
     length (windows st) = min (length ws) nwindows \<and>
     windows st = drop (length ws - nwindows) ws"
proof -
  from run_new_windows [OF assms(1)] have
    c: "currentWindow st = length ws" and
    w: "windows st = drop (currentWindow st - nwindows) ws"
    by (simp_all add: assms(2))
  have "windows st = drop (length ws - nwindows) ws"
    using w c by simp
  moreover from this have "length (windows st) = min (length ws) nwindows"
    by simp
  ultimately show ?thesis
    using c by simp
qed

theorem window_history_fifo_witness:
  "run (sum_of_replicas 1) (demo_engine 1 2 1)
       [(origin, origin, 1), (Vec 2 0 0, origin, 2), (Vec 3 0 0, origin, 3)] =
     Inr after_three_cycles \<and>
   currentWindow after_three_cycles = 3 \<and>
   length (windows after_three_cycles) = 2 \<and>
   windows after_three_cycles =
     [\<lparr>rows = 1, cols = 1, vector = BlurToGrid 0 1 1 [2] [0]\<rparr>,
      \<lparr>rows = 1, cols = 1, vector = BlurToGrid 0 1 1 [3] [0]\<rparr>]"
proof -
  note r = run_three_cycles
  note p = produced_three_cycles [symmetric]
  from window_history_fifo [OF r [unfolded demo_engine_def] p [unfolded demo_engine_def]]
  show ?thesis using r by simp
qed

section \<open>The force\<close>

lemma foldl_upt_sum:
  "foldl (\<lambda>a n. a + g n) (0::real) [0..<N] = (\<Sum>n<N. g n)"
  by (induction N) simp_all

lemma calculate_inactive:
  assumes "length (windows st) \<noteq> nWindows st \<or> sqrt (dot (vminus v v0) (vminus v v0)) = 0"
  shows "calculate st v v0 t = PotentialPointData_new"
  using assms by (auto simp: calculate_def Let_def)

text \<open>
  Claim C3. When the history is full (\<^verbatim>\<open>windows_.size() == nWindows_\<close>) and the separation
  \<open>R\<close> is not zero, the scalar force is \<open>K (maxDist - R)\<close> above \<open>maxDist\<close>,
  \<open>- K (minDist - R)\<close> below \<open>minDist\<close>, and otherwise \<open>- K\<close> times the sum over the
  bins \<open>n\<close> of \<open>histogram[n] * ((n binWidth - R) / normConst) * exp (- 0.5 ((n binWidth - R) / sigma)^2)\<close>
  with \<open>normConst = sqrt (2 pi) sigma^3\<close>; the force vector is the scalar force divided
  by the norm of \<open>rdiff\<close>, times \<open>rdiff\<close>.
\<close>

theorem calculate_force:
  assumes "length (windows st) = nWindows st"
    and "R = vnorm (vminus v v0)" and "R \<noteq> 0"
  shows "force (calculate st v v0 t) =
     vscale
       ((if R > maxDist st then k st * (maxDist st - R)
         else if R < minDist st then - k st * (minDist st - R)
         else - k st *
           (\<Sum>n<length (histogram st).
              histogram st ! n * ((real n * binWidth st - R) / (sqrt (2 * pi) * sigma st ^ 3)) *
              exp (- 0.5 * ((real n * binWidth st - R) / sigma st)\<^sup>2)))
        / vnorm (vminus v v0))
       (vminus v v0)"
proof -
  have R: "sqrt (dot (vminus v v0) (vminus v v0)) = R"
    using assms(2) by (simp add: vnorm_def)
  show ?thesis
    using assms(1,3) unfolding calculate_def Let_def R foldl_upt_sum
    by (simp add: assms(2))
qed

theorem calculate_force_witness:
  "length (windows after_warm_up) = nWindows after_warm_up \<and>
   (5::real) = vnorm (vminus (Vec 3 4 0) origin) \<and> (5::real) \<noteq> 0 \<and>
   force (calculate after_warm_up (Vec 3 4 0) origin 7) = Vec (- 12 / 5) (- 16 / 5) 0"
proof -
  have "sqrt 25 = 5" by (rule real_sqrt_unique) simp_all
  then have n: "(5::real) = vnorm (vminus (Vec 3 4 0) origin)"
    by (simp add: vnorm_def vminus_def dot_def origin_def)
  have w: "length (windows after_warm_up) = nWindows after_warm_up"
    by (simp add: after_warm_up_fields)
  from calculate_force [OF w n, of 7] show ?thesis
    using w n by (simp add: after_warm_up_fields vscale_def vminus_def origin_def)
qed

text \<open>
  Claim C5. In a state reached by a run from construction in which fewer than
  \<open>nWindows\<close> window-update cycles have completed, \<^verbatim>\<open>calculate\<close> returns the
  default output, whose force is zero, for all positions and times.
\<close>

theorem no_force_during_warm_up:
  assumes "run resources (EnsembleHarmonic_new nbins min_dist max_dist e nsamples sample_period
       nwindows window_update_period K \<sigma>) steps = Inr st"
    and "currentWindow st < nWindows st"
  shows "currentWindow st = length (produced resources (EnsembleHarmonic_new nbins min_dist
       max_dist e nsamples sample_period nwindows window_update_period K \<sigma>) steps) \<and>
     calculate st v v0 t = PotentialPointData_new \<and>
     force (calculate st v v0 t) = vzero"
proof -
  from run_new_windows [OF assms(1)] have
    n: "nWindows st = nwindows" and
    c: "currentWindow st = length (produced resources (EnsembleHarmonic_new nbins min_dist
       max_dist e nsamples sample_period nwindows window_update_period K \<sigma>) steps)" and
    w: "windows st = drop (currentWindow st - nwindows)
                    (produced resources (EnsembleHarmonic_new nbins min_dist max_dist e nsamples sample_period
       nwindows window_update_period K \<sigma>) steps)"
    by simp_all
  have "length (windows st) = currentWindow st"
    using assms(2) n c by (simp add: w)
  then have "length (windows st) \<noteq> nWindows st"
    using assms(2) by simp
  then have "calculate st v v0 t = PotentialPointData_new"
    by (simp add: calculate_inactive)
  then show ?thesis
    using c by (simp add: PotentialPointData_new_def)
qed

theorem no_force_during_warm_up_witness:
  "run (sum_of_replicas 1) (demo_engine 1 2 1) [(origin, origin, 1)] = Inr after_one_cycle \<and>
   currentWindow after_one_cycle < nWindows after_one_cycle \<and>
   force (calculate after_one_cycle (Vec 3 4 0) origin 1) = vzero"
proof -
  note r = run_one_cycle
  have c: "currentWindow after_one_cycle < nWindows after_one_cycle"
    by (simp add: after_one_cycle_fields)
  have "force (calculate after_one_cycle (Vec 3 4 0) origin 1) = vzero"
    using no_force_during_warm_up [OF r [unfolded demo_engine_def] c] by blast
  with r c show ?thesis by blast
qed

text \<open>
  \<open>calculate_checked\<close> never throws, and whenever it returns an output of real numbers,
  that output is the one \<open>calculate\<close> gives.
\<close>

lemma bias_loop_result:
  assumes "\<forall>n\<in>set ns. n < length (histogram st)"
  shows "\<exists>r. bias_loop st dev normConst ns acc = Inr r \<and>
     (\<forall>b. r = Some b \<longrightarrow>
        (\<exists>a. acc = Some a \<and>
           b = foldl (\<lambda>f_scal n.
                  let x = real n * binWidth st - dev;
                      argExp = - 0.5 * (x / sigma st)\<^sup>2
                  in f_scal + histogram st ! n * x / normConst * exp argExp) a ns))"
  using assms
proof (induction ns arbitrary: acc)
  case Nil
  then show ?case by simp
next
  case (Cons n ns)
  let ?acc' = "(case acc of
                None \<Rightarrow> None
              | Some s \<Rightarrow> (case (case divide_double (histogram st ! n * (real n * binWidth st - dev)) normConst of
                         None \<Rightarrow> None
                       | Some w \<Rightarrow>
                           (case (case divide_double (real n * binWidth st - dev) (sigma st) of
                        None \<Rightarrow> None
                      | Some q \<Rightarrow> Some (- 0.5 * q\<^sup>2)) of
                              None \<Rightarrow> None
                            | Some a \<Rightarrow> Some (w * exp a))) of None \<Rightarrow> None | Some u \<Rightarrow> Some (s + u)))"
  from Cons.prems have n: "n < length (histogram st)"
    and rest: "\<forall>n\<in>set ns. n < length (histogram st)" by simp_all
  have step: "bias_loop st dev normConst (n # ns) acc = bias_loop st dev normConst ns ?acc'"
    using n by (simp add: Let_def)
  from Cons.IH [OF rest, of ?acc'] obtain r where
    r: "bias_loop st dev normConst ns ?acc' = Inr r" and
    v: "\<And>b. r = Some b \<Longrightarrow> \<exists>a. ?acc' = Some a \<and>
           b = foldl (\<lambda>f_scal n.
                  let x = real n * binWidth st - dev;
                      argExp = - 0.5 * (x / sigma st)\<^sup>2
                  in f_scal + histogram st ! n * x / normConst * exp argExp) a ns"
    by blast
  show ?case
  proof (rule exI [of _ r], intro conjI allI impI)
    show "bias_loop st dev normConst (n # ns) acc = Inr r"
      using step r by simp
  next
    fix b assume "r = Some b"
    from v [OF this] obtain a' where
      a': "?acc' = Some a'" and
      b: "b = foldl (\<lambda>f_scal n.
                  let x = real n * binWidth st - dev;
                      argExp = - 0.5 * (x / sigma st)\<^sup>2
                  in f_scal + histogram st ! n * x / normConst * exp argExp) a' ns"
      by blast
    from a' obtain a where acc: "acc = Some a"
      and a'': "a' = a + histogram st ! n * (real n * binWidth st - dev) / normConst *
                  exp (- 0.5 * ((real n * binWidth st - dev) / sigma st)\<^sup>2)"
      by (auto simp: divide_double_def split: option.splits if_splits)
    show "\<exists>a. acc = Some a \<and>
           b = foldl (\<lambda>f_scal n.
                  let x = real n * binWidth st - dev;
                      argExp = - 0.5 * (x / sigma st)\<^sup>2
                  in f_scal + histogram st ! n * x / normConst * exp argExp) a (n # ns)"
      using acc b a'' by (simp add: Let_def)
  qed
qed

lemma calculate_checked_returns: "calculate_checked st v v0 t \<noteq> Inl e"
proof -
  obtain r where "bias_loop st (sqrt (dot (vminus v v0) (vminus v v0)))
      (sqrt (2 * pi) * sigma st ^ 3) [0..<length (histogram st)] (Some 0) = Inr r"
    using bias_loop_result [where ns = "[0..<length (histogram st)]" and st = st
        and dev = "sqrt (dot (vminus v v0) (vminus v v0))"
        and normConst = "sqrt (2 * pi) * sigma st ^ 3" and acc = "Some 0"]
    by auto
  then show ?thesis
    by (simp add: calculate_checked_def Let_def split: option.splits)
qed

lemma calculate_checked_agrees:
  assumes "calculate_checked st v v0 t = Inr (Some out)"
  shows "calculate st v v0 t = out"
proof -
  let ?R = "sqrt (dot (vminus v v0) (vminus v v0))"
  let ?nc = "sqrt (2 * pi) * sigma st ^ 3"
  obtain r where r: "bias_loop st ?R ?nc [0..<length (histogram st)] (Some 0) = Inr r"
    and v: "\<And>b. r = Some b \<Longrightarrow> b = foldl (\<lambda>f_scal n.
                  let x = real n * binWidth st - ?R;
                      argExp = - 0.5 * (x / sigma st)\<^sup>2
                  in f_scal + histogram st ! n * x / ?nc * exp argExp) 0 [0..<length (histogram st)]"
    using bias_loop_result [where ns = "[0..<length (histogram st)]" and st = st
        and dev = ?R and normConst = ?nc and acc = "Some 0"]
    by auto
  show ?thesis
    using assms r v
    by (auto simp: calculate_checked_def calculate_def Let_def divide_double_def
        split: option.splits if_splits)
qed

lemma calculate_checked_inactive:
  assumes "length (windows st) \<noteq> nWindows st \<or> sqrt (dot (vminus v v0) (vminus v v0)) = 0"
  shows "calculate_checked st v v0 t = Inr (Some PotentialPointData_new)"
  using assms by (auto simp: calculate_checked_def Let_def)

text \<open>
  Claim C6. When the two positions coincide, or more generally when the separation is
  zero, \<^verbatim>\<open>calculate\<close> returns the default output with zero force in every state, whether
  the history is full or not. It does so without an exception and without evaluating the
  quotient by the norm of \<open>rdiff\<close>: that quotient has a zero divisor here, for every scalar
  force \<open>f\<close>, so evaluating it would leave a force that is not a vector of real numbers,
  whereas the checked body returns the default output.
\<close>

theorem calculate_zero_distance:
  assumes "v = v0 \<or> vnorm (vminus v v0) = 0"
  shows "calculate st v v0 t = PotentialPointData_new \<and> force (calculate st v v0 t) = vzero \<and>
     calculate_checked st v v0 t = Inr (Some PotentialPointData_new) \<and>
     divide_double f (vnorm (vminus v v0)) = None"
proof -
  have z: "vnorm (vminus v v0) = 0"
    using assms by (auto simp: vnorm_def vminus_def dot_def)
  then have "calculate st v v0 t = PotentialPointData_new"
    by (simp add: calculate_inactive vnorm_def)
  moreover have "calculate_checked st v v0 t = Inr (Some PotentialPointData_new)"
    using z by (simp add: calculate_checked_inactive vnorm_def)
  moreover have "divide_double f (vnorm (vminus v v0)) = None"
    using z by (simp add: divide_double_def)
  ultimately show ?thesis
    by (simp add: PotentialPointData_new_def)
qed

theorem calculate_zero_distance_witness:
  "(Vec 1 2 3 = Vec 1 2 3 \<or> vnorm (vminus (Vec 1 2 3) (Vec 1 2 3)) = 0) \<and>
   length (windows after_warm_up) = nWindows after_warm_up \<and>
   force (calculate after_warm_up (Vec 1 2 3) (Vec 1 2 3) 7) = vzero \<and>
   calculate_checked after_warm_up (Vec 1 2 3) (Vec 1 2 3) 7 = Inr (Some PotentialPointData_new)"
proof -
  have w: "length (windows after_warm_up) = nWindows after_warm_up"
    by (simp add: after_warm_up_fields)
  from calculate_zero_distance [of "Vec 1 2 3" "Vec 1 2 3" after_warm_up 7]
  show ?thesis using w by blast
qed

section \<open>The timing thresholds\<close>

lemma callback_thresholds:
  assumes cb: "callback resources st v v0 t = Inr st'"
  shows "nextWindowUpdateTime st' =
       (if t \<ge> nextWindowUpdateTime st then nextWindowUpdateTime st + windowUpdatePeriod st
        else nextWindowUpdateTime st)"
    and "nextSampleTime st' =
       (if t \<ge> nextWindowUpdateTime st then t + samplePeriod st
        else if t \<ge> nextSampleTime st then nextSampleTime st + samplePeriod st
        else nextSampleTime st)"
    and "samplePeriod st' = samplePeriod st"
    and "windowUpdatePeriod st' = windowUpdatePeriod st"
proof -
  from cb obtain st1 where
    s: "store_sample t (sqrt (dot (vminus v v0) (vminus v v0))) st = Inr st1" and
    r: "if t \<ge> nextWindowUpdateTime st then window_update resources t st1 = Inr st'
        else st' = st1"
    by (rule callback_Inr)
  note f = store_sample_fields [OF s]
  note s1 = store_sample_Inr [OF s]
  have upd: "t \<ge> nextWindowUpdateTime st \<Longrightarrow>
     nextWindowUpdateTime st' = nextWindowUpdateTime st1 + windowUpdatePeriod st1 \<and>
     nextSampleTime st' = t + samplePeriod st1 \<and>
     samplePeriod st' = samplePeriod st1 \<and> windowUpdatePeriod st' = windowUpdatePeriod st1"
    using r by (auto elim!: window_update_Inr)
  show "nextWindowUpdateTime st' =
       (if t \<ge> nextWindowUpdateTime st then nextWindowUpdateTime st + windowUpdatePeriod st
        else nextWindowUpdateTime st)"
    using upd r f by (simp split: if_splits)
  show "nextSampleTime st' =
       (if t \<ge> nextWindowUpdateTime st then t + samplePeriod st
        else if t \<ge> nextSampleTime st then nextSampleTime st + samplePeriod st
        else nextSampleTime st)"
    using upd r f s1 by (simp split: if_splits)
  show "samplePeriod st' = samplePeriod st"
    using upd r f by (simp split: if_splits)
  show "windowUpdatePeriod st' = windowUpdatePeriod st"
    using upd r f by (simp split: if_splits)
qed

text \<open>
  Claim C8, as the code has it. A call that runs a window-update cycle advances
  \<^verbatim>\<open>nextWindowUpdateTime_\<close> by its period from its previous value and resets
  \<^verbatim>\<open>nextSampleTime_\<close> to the current time plus the sample period. A call that only stores
  a sample advances \<^verbatim>\<open>nextSampleTime_\<close> by its period from its previous value.
\<close>

theorem thresholds_after_firing:
  assumes "callback resources st v v0 t = Inr st'"
  shows "(t \<ge> nextWindowUpdateTime st \<longrightarrow>
            nextWindowUpdateTime st' = nextWindowUpdateTime st + windowUpdatePeriod st \<and>
            nextSampleTime st' = t + samplePeriod st) \<and>
         (t \<ge> nextSampleTime st \<and> \<not> t \<ge> nextWindowUpdateTime st \<longrightarrow>
            nextSampleTime st' = nextSampleTime st + samplePeriod st \<and>
            nextWindowUpdateTime st' = nextWindowUpdateTime st)"
  using callback_thresholds [OF assms] by simp

theorem thresholds_after_firing_witness:
  "callback (sum_of_replicas 1) (demo_engine 5 2 10) origin origin 12 = Inr after_late_window \<and>
   12 \<ge> nextWindowUpdateTime (demo_engine 5 2 10) \<and>
   nextWindowUpdateTime after_late_window = 20 \<and> nextSampleTime after_late_window = 13 \<and>
   callback (sum_of_replicas 1) (demo_engine 5 2 10) origin origin (3 / 2) =
     Inr after_late_sample \<and>
   3 / 2 \<ge> nextSampleTime (demo_engine 5 2 10) \<and>
   \<not> 3 / 2 \<ge> nextWindowUpdateTime (demo_engine 5 2 10) \<and>
   nextSampleTime after_late_sample = 2 \<and> nextWindowUpdateTime after_late_sample = 10"
  using thresholds_after_firing [OF callback_late_window]
    thresholds_after_firing [OF callback_late_sample]
    callback_late_window callback_late_sample
  by (simp add: demo_engine_fields)

text \<open>
  Claim C8, as stated, fails. A sample stored at time \<open>3/2\<close>, after the threshold 1, moves
  the sample threshold to 2 and not to \<open>3/2 + 1\<close>; a window-update cycle at time 12, after
  the threshold 10, moves the window threshold to 20 and not to \<open>12 + 10\<close>.
\<close>

theorem thresholds_reset_to_now_counterexample:
  "callback (sum_of_replicas 1) (demo_engine 5 2 10) origin origin (3 / 2) =
     Inr after_late_sample \<and>
   nextSampleTime (demo_engine 5 2 10) \<le> 3 / 2 \<and>
   nextSampleTime after_late_sample \<noteq> 3 / 2 + samplePeriod (demo_engine 5 2 10) \<and>
   callback (sum_of_replicas 1) (demo_engine 5 2 10) origin origin 12 =
     Inr after_late_window \<and>
   nextWindowUpdateTime (demo_engine 5 2 10) \<le> 12 \<and>
   nextWindowUpdateTime after_late_window \<noteq> 12 + windowUpdatePeriod (demo_engine 5 2 10)"
  using callback_thresholds(1,2) [OF callback_late_sample]
    callback_thresholds(1,2) [OF callback_late_window]
    callback_late_sample callback_late_window
  by (simp add: demo_engine_fields)

section \<open>The sample buffer\<close>

text \<open>
  Claim C9 does not hold of the code. The engine has one sample slot and a window period of
  10; the call at time 1 fills the slot and the call at time 2 stores through the unchecked
  \<^verbatim>\<open>operator[]\<close> at index 1, past the end of the buffer. No exception is thrown.
\<close>

theorem sample_overflow_writes_past_buffer:
  "nSamples (demo_engine 1 2 10) = 1 \<and>
   run (sum_of_replicas 1) (demo_engine 1 2 10) [(origin, origin, 1), (origin, origin, 2)] =
     Inl (Undefined WritePastSamples)"
  by (simp add: eval_defs)

lemma callback_samples:
  assumes cb: "callback resources st v v0 t = Inr st'"
  shows "distanceSamples st' =
       (if t \<ge> nextSampleTime st
        then (distanceSamples st)[currentSample st := sqrt (dot (vminus v v0) (vminus v v0))]
        else distanceSamples st)"
    and "nBins st' = nBins st" "minDist st' = minDist st" "maxDist st' = maxDist st"
      "sigma st' = sigma st"
    and "t \<ge> nextWindowUpdateTime st \<Longrightarrow> currentSample st' = 0"
proof -
  from cb obtain st1 where
    s: "store_sample t (sqrt (dot (vminus v v0) (vminus v v0))) st = Inr st1" and
    r: "if t \<ge> nextWindowUpdateTime st then window_update resources t st1 = Inr st'
        else st' = st1"
    by (rule callback_Inr)
  note f = store_sample_fields [OF s]
  note s1 = store_sample_Inr [OF s]
  have upd: "t \<ge> nextWindowUpdateTime st \<Longrightarrow>
     distanceSamples st' = distanceSamples st1 \<and> nBins st' = nBins st1 \<and>
     minDist st' = minDist st1 \<and> maxDist st' = maxDist st1 \<and> sigma st' = sigma st1 \<and>
     currentSample st' = 0"
    using r by (auto elim!: window_update_Inr)
  have d1: "distanceSamples st1 =
       (if t \<ge> nextSampleTime st
        then (distanceSamples st)[currentSample st := sqrt (dot (vminus v v0) (vminus v v0))]
        else distanceSamples st)"
    using s1 by (simp split: if_splits)
  show "distanceSamples st' =
       (if t \<ge> nextSampleTime st
        then (distanceSamples st)[currentSample st := sqrt (dot (vminus v v0) (vminus v v0))]
        else distanceSamples st)"
    using upd r d1 by (cases "t \<ge> nextWindowUpdateTime st") simp_all
  show "nBins st' = nBins st" "minDist st' = minDist st" "maxDist st' = maxDist st"
      "sigma st' = sigma st"
    using upd r f by (cases "t \<ge> nextWindowUpdateTime st"; simp)+
  show "t \<ge> nextWindowUpdateTime st \<Longrightarrow> currentSample st' = 0"
    using upd by simp
qed

text \<open>
  Claim C10. The sample buffer is created with \<open>nSamples\<close> zeros. A successful call
  changes at most the slot under the cursor and keeps the length \<open>nSamples\<close>; a
  window-update cycle resets the cursor and leaves the contents of the buffer as they are,
  and the window it appends is the blur of the whole buffer, stale slots included.
\<close>

theorem window_blurs_whole_buffer:
  assumes "well_formed st" and "callback resources st v v0 t = Inr st'"
  shows "distanceSamples (EnsembleHarmonic_new nbins min_dist max_dist e nsamples sample_period
            nwindows window_update_period K \<sigma>) = replicate nsamples 0 \<and>
     length (distanceSamples st') = nSamples st' \<and>
     distanceSamples st' =
       (if t \<ge> nextSampleTime st
        then (distanceSamples st)[currentSample st := sqrt (dot (vminus v v0) (vminus v v0))]
        else distanceSamples st) \<and>
     (t \<ge> nextWindowUpdateTime st \<longrightarrow>
        currentSample st' = 0 \<and>
        windows st' \<noteq> [] \<and>
        vector (last (windows st')) =
          BlurToGrid (minDist st) (maxDist st) (sigma st) (distanceSamples st')
            (replicate (nBins st) 0))"
proof -
  note cs = callback_samples [OF assms(2)]
  have wf': "well_formed st'" by (rule well_formed_callback [OF assms])
  have b: "vector (blurred_window st') =
      BlurToGrid (minDist st) (maxDist st) (sigma st) (distanceSamples st')
            (replicate (nBins st) 0)"
    by (simp add: blurred_window_def Matrix_new_def cs(2-5))
  have fired: "t \<ge> nextWindowUpdateTime st \<Longrightarrow>
      windows st' \<noteq> [] \<and> last (windows st') = blurred_window st'"
    using callback_windows(2) [OF assms(2)] by simp
  show ?thesis
    using wf' cs(1) cs(6) fired b
    by (simp add: EnsembleHarmonic_new_def well_formed_def)
qed

theorem window_blurs_whole_buffer_witness:
  "well_formed (demo_engine 2 2 1) \<and>
   callback (sum_of_replicas 1) (demo_engine 2 2 1) (Vec 2 0 0) origin 1 =
     Inr after_short_window \<and>
   1 \<ge> nextWindowUpdateTime (demo_engine 2 2 1) \<and>
   distanceSamples after_short_window = [2, 0] \<and>
   currentSample after_short_window = 0 \<and>
   vector (last (windows after_short_window)) = BlurToGrid 0 1 1 [2, 0] [0]"
proof -
  have wf: "well_formed (demo_engine 2 2 1)"
    unfolding demo_engine_def by (rule well_formed_new)
  from window_blurs_whole_buffer [OF wf callback_short_window]
  show ?thesis
    using wf callback_short_window
    by (simp add: demo_engine_def EnsembleHarmonic_new_def vminus_def dot_def origin_def
        numeral_2_eq_2)
qed

end
